theory Spec2Isabelle
  imports Complex_Main "HOL-Library.AList"
begin

section \<open>Data model\<close>

text \<open>
  The bookstore simulation of \<^verbatim>\<open>bms/simulation\<close>. Python's unbounded integers are
  \<open>int\<close>, floats (prices, budgets, the spawn chance) are read as reals, a \<^verbatim>\<open>dict\<close> whose
  iteration order is observable is an association list (updated in place or appended, as
  Python does), the pending-restock \<^verbatim>\<open>set\<close> is a set.
\<close>

text \<open>\<^verbatim>\<open>state.py\<close>: \<^verbatim>\<open>InventorySnapshot\<close>.\<close>

record InventorySnapshot =
  book_isbn :: string
  title :: string
  quantity :: int
  price :: real
  low_threshold :: int

text \<open>\<^verbatim>\<open>model.py\<close>: \<^verbatim>\<open>RestockEvent\<close>.\<close>

record RestockEvent =
  ev_step :: int
  ev_book_isbn :: string
  ev_amount :: int
  ev_employee_id :: "string option"

text \<open>
  One entry of \<^verbatim>\<open>purchase_log\<close> (a dict with the keys order, customer, book, price, step).
\<close>

record PurchaseRecord =
  pl_order :: string
  pl_customer :: string
  pl_book :: string
  pl_price :: real
  pl_step :: int

text \<open>
  \<^verbatim>\<open>message_bus.py\<close>: a message payload is a dict; the keys the code reads are
  \<^verbatim>\<open>book_id\<close>, \<^verbatim>\<open>customer_id\<close>, \<^verbatim>\<open>price\<close> and \<^verbatim>\<open>amount\<close>. \<open>None\<close> is what
  \<^verbatim>\<open>payload.get(key)\<close> returns for an absent key.
\<close>

record Payload =
  p_book_id :: "string option"
  p_customer_id :: "string option"
  p_price :: "real option"
  p_amount :: "int option"

record Message =
  topic :: string
  payload :: Payload

type_synonym MessageBus = "string \<rightharpoonup> Message list"

text \<open>\<^verbatim>\<open>config.py\<close>: \<^verbatim>\<open>SimulationSettings\<close>.\<close>

record SimulationSettings =
  max_steps :: int
  customer_spawn_chance :: real
  restock_threshold :: int
  reasoner_sync_interval :: int
  restock_amount :: int
  random_seed :: "int option"

text \<open>
  The knowledge store. An inventory individual carries three list-valued data properties;
  a book its title and price; a customer the books it \<^verbatim>\<open>Purchases\<close>; an employee the
  inventory individuals it \<^verbatim>\<open>WorksAt\<close>; an order its customer and book. Individuals are
  keyed by name; the inventory individual of a book is keyed by the book's isbn (every book
  has an inventory individual of its own).
\<close>

record inv_entity =
  AvailableQuantity :: "int list"
  LowThreshold :: "int list"
  NeedsRestock :: "bool list"

record book_entity =
  HasTitle :: "string list"
  HasPrice :: "real list"

record order_entity =
  OrderedBy :: "string list"
  OrderedBook :: "string list"

record ontology =
  onto_Book :: "(string \<times> book_entity) list"
  onto_Customer :: "(string \<times> string list) list"
  onto_Employee :: "(string \<times> string list) list"
  onto_Order :: "(string \<times> order_entity) list"

text \<open>\<^verbatim>\<open>agents.py\<close>: the three agent classes; a customer carries its budget.\<close>

datatype agent = BookAgent string | CustomerAgent real | EmployeeAgent

datatype warning = ReasonerUnavailable | ReasonerFailed

datatype error = KeyError string

text \<open>
  \<^verbatim>\<open>BookstoreModel\<close>. \<open>random\<close> is the state of the model's generator and \<open>schedule\<close>
  the scheduler's agent dict. \<open>inventory_entities\<close> holds the inventory individuals of the
  ontology themselves (the Python dict holds references to them), \<open>ontology\<close> the other
  individuals; the caches \<^verbatim>\<open>book_entities\<close>, \<^verbatim>\<open>customer_entities\<close> and
  \<^verbatim>\<open>employee_entities\<close> only memoise lookups in the ontology and are not kept apart.
  \<open>warnings\<close> is what the model has sent to \<^verbatim>\<open>LOGGER.warning\<close>.
\<close>

record BookstoreModel =
  config :: SimulationSettings
  random :: nat
  ontology :: ontology
  message_bus :: MessageBus
  schedule :: "(string \<times> agent) list"
  inventory_snapshots :: "(string \<times> InventorySnapshot) list"
  inventory_entities :: "(string \<times> inv_entity) list"
  pending_restocks :: "string set"
  purchase_log :: "PurchaseRecord list"
  restock_log :: "RestockEvent list"
  order_counter :: nat
  step_count :: int
  reasoner_available :: bool
  reasoner_warning_emitted :: bool
  warnings :: "warning list"

text \<open>
  What the model calls but does not define: the generator behind \<^verbatim>\<open>self.random\<close>
  (its state without a seed, seeding, \<^verbatim>\<open>random()\<close>, the scheduler's shuffle), the customers' decision policy, and
  Pellet. \<open>sync_reasoner_pellet\<close> is \<open>None\<close> when the import failed; a reasoner run
  returns \<open>None\<close> when it throws and otherwise the property values of every inventory
  individual after inference.
\<close>

type_synonym reasoner = "(string \<times> inv_entity) list \<Rightarrow> (string \<Rightarrow> inv_entity) option"

record env =
  rng_unseeded :: nat
  rng_seed :: "int \<Rightarrow> nat"
  rng_random :: "nat \<Rightarrow> real \<times> nat"
  rng_shuffle :: "nat \<Rightarrow> string list \<Rightarrow> string list \<times> nat"
  choose_purchase :: "InventorySnapshot list \<Rightarrow> real \<Rightarrow> nat \<Rightarrow> (string \<times> real) option \<times> nat"
  sync_reasoner_pellet :: "reasoner option"

section \<open>Message bus\<close>

definition publish :: "string \<Rightarrow> Payload \<Rightarrow> MessageBus \<Rightarrow> MessageBus" where
  "publish t p bus =
     bus(t \<mapsto> (case bus t of None \<Rightarrow> [] | Some q \<Rightarrow> q) @ [\<lparr>topic = t, payload = p\<rparr>])"

text \<open>\<^verbatim>\<open>poll\<close> returns the oldest message together with the bus it leaves behind.\<close>

definition poll :: "string \<Rightarrow> MessageBus \<Rightarrow> (Message \<times> MessageBus) option" where
  "poll t bus =
     (case bus t of
        None \<Rightarrow> None
      | Some [] \<Rightarrow> None
      | Some (m # q) \<Rightarrow> Some (m, bus(t \<mapsto> q)))"

definition clear :: "MessageBus \<Rightarrow> MessageBus" where
  "clear bus = Map.empty"

text \<open>The messages waiting on a topic.\<close>

definition queue :: "string \<Rightarrow> MessageBus \<Rightarrow> Message list" where
  "queue t bus = (case bus t of None \<Rightarrow> [] | Some q \<Rightarrow> q)"

section \<open>Ontology access\<close>

fun normalise_identifier :: "string \<Rightarrow> string" where
  "normalise_identifier (a # b # cs) =
     (if a = CHR '':'' \<and> b = CHR '':'' then CHR ''_'' # normalise_identifier cs
      else a # normalise_identifier (b # cs))"
| "normalise_identifier cs = cs"

definition ensure_named :: "string \<Rightarrow> 'a \<Rightarrow> (string \<times> 'a) list \<Rightarrow> (string \<times> 'a) list" where
  "ensure_named name fresh al = (case map_of al name of None \<Rightarrow> al @ [(name, fresh)] | Some _ \<Rightarrow> al)"

definition ensure_book_entity :: "string \<Rightarrow> BookstoreModel \<Rightarrow> BookstoreModel" where
  "ensure_book_entity isbn s =
     s\<lparr>ontology := (ontology s)\<lparr>onto_Book :=
          ensure_named isbn \<lparr>HasTitle = [], HasPrice = []\<rparr> (onto_Book (ontology s))\<rparr>\<rparr>"

definition ensure_customer_entity :: "string \<Rightarrow> BookstoreModel \<Rightarrow> BookstoreModel" where
  "ensure_customer_entity unique_id s =
     s\<lparr>ontology := (ontology s)\<lparr>onto_Customer :=
          ensure_named (normalise_identifier unique_id) [] (onto_Customer (ontology s))\<rparr>\<rparr>"

definition ensure_employee_entity :: "string \<Rightarrow> BookstoreModel \<Rightarrow> BookstoreModel" where
  "ensure_employee_entity unique_id s =
     s\<lparr>ontology := (ontology s)\<lparr>onto_Employee :=
          ensure_named (normalise_identifier unique_id) [] (onto_Employee (ontology s))\<rparr>\<rparr>"

text \<open>
  \<^verbatim>\<open>_write_back_inventory_to_ontology\<close>: the book and its inventory individual are
  looked up or created, then the three properties are overwritten.
\<close>

definition write_back_inventory_to_ontology ::
    "InventorySnapshot \<Rightarrow> bool option \<Rightarrow> BookstoreModel \<Rightarrow> BookstoreModel" where
  "write_back_inventory_to_ontology snapshot needs_restock s =
     (let s1 = ensure_book_entity (book_isbn snapshot) s;
          computed_flag = quantity snapshot < low_threshold snapshot;
          flag = (case needs_restock of None \<Rightarrow> computed_flag | Some b \<Rightarrow> b)
      in s1\<lparr>inventory_entities :=
             AList.update (book_isbn snapshot)
               \<lparr>AvailableQuantity = [quantity snapshot],
                LowThreshold = [low_threshold snapshot],
                NeedsRestock = [flag]\<rparr>
               (inventory_entities s1)\<rparr>)"

section \<open>Restocking\<close>

definition add_works_at :: "string \<Rightarrow> string \<Rightarrow> BookstoreModel \<Rightarrow> BookstoreModel" where
  "add_works_at employee_id item s =
     (let name = normalise_identifier employee_id in
      case map_of (onto_Employee (ontology s)) name of
        None \<Rightarrow> s
      | Some works \<Rightarrow>
          if item \<in> set works then s
          else s\<lparr>ontology := (ontology s)\<lparr>onto_Employee :=
                 AList.update name (works @ [item]) (onto_Employee (ontology s))\<rparr>\<rparr>)"

text \<open>\<^verbatim>\<open>BookstoreModel.restock_inventory\<close>.\<close>

definition restock_inventory ::
    "string \<Rightarrow> int \<Rightarrow> string option \<Rightarrow> BookstoreModel \<Rightarrow> BookstoreModel" where
  "restock_inventory book_id amount employee_id s =
     (case map_of (inventory_snapshots s) book_id of
        None \<Rightarrow> s
      | Some snapshot \<Rightarrow>
          let increment = max amount 0;
              snapshot' = snapshot\<lparr>quantity := quantity snapshot + increment\<rparr>;
              s1 = s\<lparr>inventory_snapshots := AList.update book_id snapshot' (inventory_snapshots s),
                     pending_restocks := pending_restocks s - {book_id}\<rparr>;
              s2 = write_back_inventory_to_ontology snapshot'
                     (Some (quantity snapshot' < low_threshold snapshot')) s1;
              s3 = (case employee_id of None \<Rightarrow> s2 | Some e \<Rightarrow> ensure_employee_entity e s2);
              s4 = (case employee_id of
                      None \<Rightarrow> s3
                    | Some e \<Rightarrow>
                        (case map_of (inventory_entities s3) book_id of
                           None \<Rightarrow> s3
                         | Some _ \<Rightarrow> add_works_at e book_id s3))
          in s4\<lparr>restock_log := restock_log s4 @
                 [\<lparr>ev_step = step_count s4, ev_book_isbn = book_id,
                   ev_amount = increment, ev_employee_id = employee_id\<rparr>]\<rparr>)"

section \<open>Purchases\<close>

text \<open>Decimal rendering of the order counter, for \<^verbatim>\<open>f"order_{self.order_counter}"\<close>.\<close>

definition digit_char :: "nat \<Rightarrow> char" where
  "digit_char d = ''0123456789'' ! d"

fun str_nat :: "nat \<Rightarrow> string" where
  "str_nat n = (if n < 10 then [digit_char n] else str_nat (n div 10) @ [digit_char (n mod 10)])"

declare str_nat.simps [simp del]

definition order_name_of :: "nat \<Rightarrow> string" where
  "order_name_of n = ''order_'' @ str_nat n"

text \<open>\<^verbatim>\<open>_record_purchase\<close>.\<close>

definition record_purchase :: "string \<Rightarrow> string \<Rightarrow> real \<Rightarrow> BookstoreModel \<Rightarrow> BookstoreModel" where
  "record_purchase customer_id book_id pr s =
     (let s1 = ensure_customer_entity customer_id s;
          s2 = ensure_book_entity book_id s1;
          cname = normalise_identifier customer_id;
          bought = (case map_of (onto_Customer (ontology s2)) cname of None \<Rightarrow> [] | Some bs \<Rightarrow> bs);
          s3 = (if book_id \<in> set bought then s2
                else s2\<lparr>ontology := (ontology s2)\<lparr>onto_Customer :=
                       AList.update cname (bought @ [book_id]) (onto_Customer (ontology s2))\<rparr>\<rparr>);
          order_name = order_name_of (order_counter s3);
          s4 = s3\<lparr>order_counter := order_counter s3 + 1\<rparr>;
          s5 = s4\<lparr>ontology := (ontology s4)\<lparr>onto_Order :=
                   AList.update order_name \<lparr>OrderedBy = [cname], OrderedBook = [book_id]\<rparr>
                     (onto_Order (ontology s4))\<rparr>\<rparr>
      in s5\<lparr>purchase_log := purchase_log s5 @
             [\<lparr>pl_order = order_name, pl_customer = customer_id, pl_book = book_id,
               pl_price = pr, pl_step = step_count s5\<rparr>]\<rparr>)"

text \<open>
  The body of the loop of \<^verbatim>\<open>_process_purchase_events\<close>, for one polled message:
  field validation, the stock check, the decrement with its write-back, the purchase record.
\<close>

definition apply_purchase_message :: "Message \<Rightarrow> BookstoreModel \<Rightarrow> BookstoreModel" where
  "apply_purchase_message message s =
     (let book_id = p_book_id (payload message);
          customer_id = p_customer_id (payload message);
          pr = (case p_price (payload message) of None \<Rightarrow> 0 | Some x \<Rightarrow> x)
      in case book_id of
           None \<Rightarrow> s
         | Some b \<Rightarrow>
             if b = [] then s
             else (case customer_id of
                     None \<Rightarrow> s
                   | Some c \<Rightarrow>
                       (case map_of (inventory_snapshots s) b of
                          None \<Rightarrow> s
                        | Some snapshot \<Rightarrow>
                            if quantity snapshot \<le> 0 then s
                            else
                              let snapshot' = snapshot\<lparr>quantity := max (quantity snapshot - 1) 0\<rparr>;
                                  s1 = s\<lparr>inventory_snapshots :=
                                         AList.update b snapshot' (inventory_snapshots s)\<rparr>;
                                  needs_restock = quantity snapshot' < low_threshold snapshot';
                                  s2 = write_back_inventory_to_ontology snapshot' (Some needs_restock) s1
                              in record_purchase c b pr s2)))"

lemma message_bus_apply_purchase_message [simp]:
  "message_bus (apply_purchase_message m s) = message_bus s"
  by (simp add: apply_purchase_message_def record_purchase_def write_back_inventory_to_ontology_def
      ensure_book_entity_def ensure_customer_entity_def Let_def split: option.splits)

lemma poll_shortens: "poll t bus = Some (m, bus') \<Longrightarrow> length (queue t bus') < length (queue t bus)"
  by (auto simp: poll_def queue_def split: option.splits list.splits)

text \<open>\<^verbatim>\<open>_process_purchase_events\<close>: poll until the topic is empty.\<close>

function process_purchase_events :: "BookstoreModel \<Rightarrow> BookstoreModel" where
  "process_purchase_events s =
     (case poll ''purchases'' (message_bus s) of
        None \<Rightarrow> s
      | Some (message, bus') \<Rightarrow>
          process_purchase_events (apply_purchase_message message (s\<lparr>message_bus := bus'\<rparr>)))"
  by pat_completeness auto
termination
  by (relation "measure (\<lambda>s. length (queue ''purchases'' (message_bus s)))")
     (auto dest: poll_shortens)

declare process_purchase_events.simps [simp del]


section \<open>Restock coordination\<close>

definition needs_restock_flag :: "inv_entity \<Rightarrow> bool" where
  "needs_restock_flag item = (case NeedsRestock item of [] \<Rightarrow> False | b # _ \<Rightarrow> b)"

text \<open>
  \<^verbatim>\<open>_enqueue_restock_requests_from_ontology\<close>: the loop over
  \<^verbatim>\<open>inventory_entities.items()\<close>. \<^verbatim>\<open>self.inventory_snapshots[isbn]\<close> raises
  \<^verbatim>\<open>KeyError\<close> for an isbn without a snapshot.
\<close>

fun enqueue_loop ::
    "bool \<Rightarrow> (string \<times> inv_entity) list \<Rightarrow> BookstoreModel \<Rightarrow> error + BookstoreModel" where
  "enqueue_loop fallback [] s = Inr s"
| "enqueue_loop fallback ((isbn, item) # rest) s =
     (case map_of (inventory_snapshots s) isbn of
        None \<Rightarrow> Inl (KeyError isbn)
      | Some snapshot \<Rightarrow>
          let needs_restock =
                (if fallback then quantity snapshot < low_threshold snapshot
                 else needs_restock_flag item)
          in if \<not> needs_restock \<or> isbn \<in> pending_restocks s then enqueue_loop fallback rest s
             else enqueue_loop fallback rest
                    (s\<lparr>message_bus :=
                         publish ''restock''
                           \<lparr>p_book_id = Some isbn, p_customer_id = None, p_price = None,
                            p_amount = Some (restock_amount (config s))\<rparr>
                           (message_bus s),
                       pending_restocks := insert isbn (pending_restocks s)\<rparr>))"

definition enqueue_restock_requests_from_ontology ::
    "bool \<Rightarrow> BookstoreModel \<Rightarrow> error + BookstoreModel" where
  "enqueue_restock_requests_from_ontology fallback s =
     enqueue_loop fallback (inventory_entities s) s"

definition log_reasoner_warning :: "BookstoreModel \<Rightarrow> BookstoreModel" where
  "log_reasoner_warning s =
     (if \<not> reasoner_warning_emitted s
      then s\<lparr>warnings := warnings s @ [ReasonerUnavailable], reasoner_warning_emitted := True\<rparr>
      else s)"

text \<open>
  The call \<^verbatim>\<open>sync_reasoner_pellet([self.ontology], ...)\<close>: \<open>None\<close> when it raises
  (calling the \<open>None\<close> left by a failed import raises as well).
\<close>

definition run_reasoner :: "env \<Rightarrow> BookstoreModel \<Rightarrow> (string \<Rightarrow> inv_entity) option" where
  "run_reasoner E s =
     (case sync_reasoner_pellet E of None \<Rightarrow> None | Some R \<Rightarrow> R (inventory_entities s))"

text \<open>\<^verbatim>\<open>_sync_reasoner_if_needed\<close>.\<close>

definition sync_reasoner_if_needed :: "env \<Rightarrow> bool \<Rightarrow> BookstoreModel \<Rightarrow> error + BookstoreModel" where
  "sync_reasoner_if_needed E force s =
     (let interval = reasoner_sync_interval (config s) in
      if \<not> force \<and> interval \<noteq> 0 \<and> step_count s mod interval \<noteq> 0
      then enqueue_restock_requests_from_ontology (\<not> reasoner_available s) s
      else if \<not> reasoner_available s
      then enqueue_restock_requests_from_ontology True (log_reasoner_warning s)
      else (case run_reasoner E s of
              None \<Rightarrow>
                enqueue_restock_requests_from_ontology True
                  (s\<lparr>reasoner_available := False, warnings := warnings s @ [ReasonerFailed]\<rparr>)
            | Some inferred \<Rightarrow>
                enqueue_restock_requests_from_ontology False
                  (s\<lparr>inventory_entities :=
                       map (\<lambda>(isbn, item). (isbn, inferred isbn)) (inventory_entities s)\<rparr>)))"

section \<open>Reports\<close>

record InventorySummary =
  ri_isbn :: string
  ri_title :: string
  ri_price :: real
  ri_quantity :: int
  ri_low_threshold :: int
  ri_needs_restock :: bool

text \<open>
  The report dict; its \<^verbatim>\<open>purchases\<close> entry, a projection of the customers'
  \<^verbatim>\<open>HasPurchased\<close>/\<^verbatim>\<open>Purchases\<close> facts, is left out.
\<close>

record Report =
  rep_inventory :: "InventorySummary list"
  rep_restocks :: "RestockEvent list"
  rep_reasoner_active :: bool

definition inventory_summary_entry ::
    "BookstoreModel \<Rightarrow> string \<times> InventorySnapshot \<Rightarrow> InventorySummary" where
  "inventory_summary_entry s = (\<lambda>(isbn, snapshot).
     (case map_of (inventory_entities s) isbn of
        Some item \<Rightarrow>
          let q = (case AvailableQuantity item of [] \<Rightarrow> quantity snapshot | x # _ \<Rightarrow> x);
              t = (case LowThreshold item of [] \<Rightarrow> low_threshold snapshot | x # _ \<Rightarrow> x);
              n = (case NeedsRestock item of [] \<Rightarrow> q < t | b # _ \<Rightarrow> b)
          in \<lparr>ri_isbn = isbn, ri_title = title snapshot, ri_price = price snapshot,
              ri_quantity = q, ri_low_threshold = t, ri_needs_restock = n\<rparr>
      | None \<Rightarrow>
          \<lparr>ri_isbn = isbn, ri_title = title snapshot, ri_price = price snapshot,
           ri_quantity = quantity snapshot, ri_low_threshold = low_threshold snapshot,
           ri_needs_restock = quantity snapshot < low_threshold snapshot\<rparr>))"

text \<open>\<^verbatim>\<open>generate_report\<close>: the report and the model it leaves behind.\<close>

definition generate_report :: "env \<Rightarrow> BookstoreModel \<Rightarrow> error + (Report \<times> BookstoreModel)" where
  "generate_report E s =
     (case sync_reasoner_if_needed E True s of
        Inl e \<Rightarrow> Inl e
      | Inr s1 \<Rightarrow>
          Inr (\<lparr>rep_inventory = map (inventory_summary_entry s1) (inventory_snapshots s1),
                rep_restocks = restock_log s1,
                rep_reasoner_active = reasoner_available s1\<rparr>, s1))"

section \<open>Agents and the tick\<close>

text \<open>\<^verbatim>\<open>CustomerAgent.step\<close>: the customer's new budget and the model.\<close>

definition CustomerAgent_step ::
    "env \<Rightarrow> string \<Rightarrow> real \<Rightarrow> BookstoreModel \<Rightarrow> real \<times> BookstoreModel" where
  "CustomerAgent_step E unique_id budget s =
     (let (x, r1) = rng_random E (random s);
          s1 = s\<lparr>random := r1\<rparr>
      in if x > customer_spawn_chance (config s1) then (budget, s1)
         else
           let inventory = map snd (inventory_snapshots s1);
               (decision, r2) = choose_purchase E inventory budget (random s1);
               s2 = s1\<lparr>random := r2\<rparr>
           in case decision of
                None \<Rightarrow> (budget, s2)
              | Some (book_id, unit_price) \<Rightarrow>
                  if budget < unit_price then (budget, s2)
                  else (budget - unit_price,
                        s2\<lparr>message_bus :=
                             publish ''purchases''
                               \<lparr>p_book_id = Some book_id, p_customer_id = Some unique_id,
                                p_price = Some unit_price, p_amount = None\<rparr>
                               (message_bus s2)\<rparr>))"

lemma message_bus_restock_inventory [simp]:
  "message_bus (restock_inventory b a e s) = message_bus s"
  by (simp add: restock_inventory_def write_back_inventory_to_ontology_def ensure_book_entity_def
      ensure_employee_entity_def add_works_at_def Let_def split: option.splits)

text \<open>
  \<^verbatim>\<open>EmployeeAgent.step\<close>: the body of its loop for one polled message, and the loop
  that drains the restock topic.
\<close>

definition handle_restock_message :: "string \<Rightarrow> Message \<Rightarrow> BookstoreModel \<Rightarrow> BookstoreModel" where
  "handle_restock_message unique_id message s =
     (let book_id = p_book_id (payload message);
          amount = (case p_amount (payload message) of
                      None \<Rightarrow> restock_amount (config s) | Some a \<Rightarrow> a)
      in case book_id of
           None \<Rightarrow> s
         | Some b \<Rightarrow> restock_inventory b amount (Some unique_id) s)"

lemma message_bus_handle_restock_message [simp]:
  "message_bus (handle_restock_message u m s) = message_bus s"
  by (simp add: handle_restock_message_def split: option.splits)

function EmployeeAgent_step :: "string \<Rightarrow> BookstoreModel \<Rightarrow> BookstoreModel" where
  "EmployeeAgent_step unique_id s =
     (case poll ''restock'' (message_bus s) of
        None \<Rightarrow> s
      | Some (message, bus') \<Rightarrow>
          EmployeeAgent_step unique_id
            (handle_restock_message unique_id message (s\<lparr>message_bus := bus'\<rparr>)))"
  by pat_completeness auto
termination
  by (relation "measure (\<lambda>(u, s). length (queue ''restock'' (message_bus s)))")
     (auto dest: poll_shortens)

declare EmployeeAgent_step.simps [simp del]

text \<open>One activation of the agent registered under \<open>key\<close>.\<close>

definition activate :: "env \<Rightarrow> string \<Rightarrow> BookstoreModel \<Rightarrow> BookstoreModel" where
  "activate E key s =
     (case map_of (schedule s) key of
        None \<Rightarrow> s
      | Some (BookAgent _) \<Rightarrow> s
      | Some EmployeeAgent \<Rightarrow> EmployeeAgent_step key s
      | Some (CustomerAgent budget) \<Rightarrow>
          (let (budget', s') = CustomerAgent_step E key budget s
           in s'\<lparr>schedule := AList.update key (CustomerAgent budget') (schedule s')\<rparr>))"

text \<open>
  \<^verbatim>\<open>self.schedule.step()\<close> of Mesa's \<^verbatim>\<open>RandomActivation\<close>: the agent keys are shuffled
  with the model's generator and every key still registered is activated in that order.
\<close>

definition schedule_step :: "env \<Rightarrow> BookstoreModel \<Rightarrow> BookstoreModel" where
  "schedule_step E s =
     (let (order, r) = rng_shuffle E (random s) (map fst (schedule s))
      in foldl (\<lambda>s' key. activate E key s') (s\<lparr>random := r\<rparr>) order)"

text \<open>\<^verbatim>\<open>BookstoreModel.step\<close>.\<close>

definition step :: "env \<Rightarrow> BookstoreModel \<Rightarrow> error + BookstoreModel" where
  "step E s =
     sync_reasoner_if_needed E False
       (process_purchase_events (schedule_step E (s\<lparr>step_count := step_count s + 1\<rparr>)))"


section \<open>Construction\<close>

text \<open>
  \<^verbatim>\<open>_load_inventory_from_ontology\<close>: the loop over the ontology's books; \<open>inventories\<close> are
  the inventory individuals the store holds, by isbn (\<^verbatim>\<open>ensure_inventory_for\<close> creates
  an empty one for a book without).
\<close>

fun load_inventory_loop ::
    "(string \<times> inv_entity) list \<Rightarrow> (string \<times> book_entity) list \<Rightarrow> BookstoreModel \<Rightarrow> BookstoreModel" where
  "load_inventory_loop inventories [] s = s"
| "load_inventory_loop inventories ((isbn, book) # rest) s =
     (let inventory = (case map_of inventories isbn of
                         None \<Rightarrow> \<lparr>AvailableQuantity = [], LowThreshold = [], NeedsRestock = []\<rparr>
                       | Some i \<Rightarrow> i);
          qty = (case AvailableQuantity inventory of [] \<Rightarrow> 0 | q # _ \<Rightarrow> q);
          threshold = (case LowThreshold inventory of
                         [] \<Rightarrow> restock_threshold (config s) | t # _ \<Rightarrow> t);
          inventory1 = (if LowThreshold inventory = []
                        then inventory\<lparr>LowThreshold := [threshold]\<rparr> else inventory);
          needs_restock = (case NeedsRestock inventory1 of [] \<Rightarrow> qty < threshold | b # _ \<Rightarrow> b);
          inventory2 = (if NeedsRestock inventory1 = []
                        then inventory1\<lparr>NeedsRestock := [needs_restock]\<rparr> else inventory1);
          pr = (case HasPrice book of [] \<Rightarrow> 0 | x # _ \<Rightarrow> x);
          ttl = (case HasTitle book of [] \<Rightarrow> isbn | x # _ \<Rightarrow> x);
          snapshot = \<lparr>book_isbn = isbn, title = ttl, quantity = qty, price = pr,
                      low_threshold = threshold\<rparr>
      in load_inventory_loop inventories rest
           (s\<lparr>inventory_snapshots := AList.update isbn snapshot (inventory_snapshots s),
              inventory_entities := AList.update isbn inventory2 (inventory_entities s)\<rparr>))"

text \<open>
  \<^verbatim>\<open>_register_agents\<close>. The ids handed to \<^verbatim>\<open>schedule.add\<close> are pairwise different, so
  each agent is appended to the scheduler's dict.
\<close>

definition schedule_add :: "string \<Rightarrow> agent \<Rightarrow> BookstoreModel \<Rightarrow> BookstoreModel" where
  "schedule_add unique_id a s = s\<lparr>schedule := schedule s @ [(unique_id, a)]\<rparr>"

definition register_agents :: "BookstoreModel \<Rightarrow> BookstoreModel" where
  "register_agents s =
     (let s1 = foldl (\<lambda>s' snapshot.
                   schedule_add (''book::'' @ book_isbn snapshot) (BookAgent (book_isbn snapshot)) s')
                 s (map snd (inventory_snapshots s));
          s2 = schedule_add ''employee::0'' EmployeeAgent (ensure_employee_entity ''employee::0'' s1);
          s3 = schedule_add ''customer::0'' (CustomerAgent 50) (ensure_customer_entity ''customer::0'' s2)
      in schedule_add ''customer::1'' (CustomerAgent 50) (ensure_customer_entity ''customer::1'' s3))"

text \<open>\<^verbatim>\<open>BookstoreModel.__init__\<close>, on the store the builder holds.\<close>

definition BookstoreModel_init ::
    "env \<Rightarrow> SimulationSettings \<Rightarrow> ontology \<Rightarrow> (string \<times> inv_entity) list \<Rightarrow> BookstoreModel" where
  "BookstoreModel_init E cfg onto inventories =
     register_agents
       (load_inventory_loop inventories (onto_Book onto)
          \<lparr>config = cfg,
           random = (case random_seed cfg of None \<Rightarrow> rng_unseeded E | Some x \<Rightarrow> rng_seed E x),
           ontology = onto,
           message_bus = Map.empty,
           schedule = [],
           inventory_snapshots = [],
           inventory_entities = [],
           pending_restocks = {},
           purchase_log = [],
           restock_log = [],
           order_counter = 0,
           step_count = 0,
           reasoner_available = (sync_reasoner_pellet E \<noteq> None),
           reasoner_warning_emitted = False,
           warnings = []\<rparr>)"

section \<open>The simulation manager\<close>

text \<open>
  \<^verbatim>\<open>backend/app/simulation_manager.py\<close>. \<open>persisted\<close> is the saved ontology file
  (\<open>None\<close> while the path does not exist); the manager's config is the model's (one shared
  object).
\<close>

record SimulationManager =
  persisted :: "(ontology \<times> (string \<times> inv_entity) list) option"
  model :: BookstoreModel

definition create_model ::
    "env \<Rightarrow> SimulationSettings \<Rightarrow> ontology \<times> (string \<times> inv_entity) list \<Rightarrow> BookstoreModel" where
  "create_model E cfg store =
     (let m = BookstoreModel_init E cfg (fst store) (snd store)
      in case random_seed cfg of None \<Rightarrow> m | Some x \<Rightarrow> m\<lparr>random := rng_seed E x\<rparr>)"

text \<open>The overrides \<^verbatim>\<open>run_steps\<close> applies before it ticks.\<close>

definition configure :: "env \<Rightarrow> int option \<Rightarrow> int option \<Rightarrow> BookstoreModel \<Rightarrow> BookstoreModel" where
  "configure E interval_override seed_override s =
     (let s1 = (case interval_override of
                  None \<Rightarrow> s
                | Some i \<Rightarrow> s\<lparr>config := (config s)\<lparr>reasoner_sync_interval := i\<rparr>\<rparr>)
      in case seed_override of
           None \<Rightarrow> s1
         | Some x \<Rightarrow> s1\<lparr>config := (config s1)\<lparr>random_seed := Some x\<rparr>, random := rng_seed E x\<rparr>)"

fun step_n :: "env \<Rightarrow> nat \<Rightarrow> BookstoreModel \<Rightarrow> error + BookstoreModel" where
  "step_n E 0 s = Inr s"
| "step_n E (Suc n) s = (case step E s of Inl e \<Rightarrow> Inl e | Inr s' \<Rightarrow> step_n E n s')"

definition run_steps ::
    "env \<Rightarrow> int \<Rightarrow> int option \<Rightarrow> int option \<Rightarrow> SimulationManager \<Rightarrow> error + SimulationManager" where
  "run_steps E steps interval_override seed_override m =
     (case step_n E (nat steps) (configure E interval_override seed_override (model m)) of
        Inl e \<Rightarrow> Inl e
      | Inr s \<Rightarrow> Inr (m\<lparr>model := s, persisted := Some (ontology s, inventory_entities s)\<rparr>))"

text \<open>
  \<^verbatim>\<open>reset\<close>: the ontology is loaded from the file when it exists and a new model is
  built on it.
\<close>

definition reset :: "env \<Rightarrow> SimulationManager \<Rightarrow> SimulationManager" where
  "reset E m =
     m\<lparr>model := create_model E (config (model m))
          (case persisted m of
             None \<Rightarrow> (ontology (model m), inventory_entities (model m))
           | Some store \<Rightarrow> store)\<rparr>"

definition get_report :: "env \<Rightarrow> SimulationManager \<Rightarrow> error + (Report \<times> SimulationManager)" where
  "get_report E m =
     (case generate_report E (model m) of
        Inl e \<Rightarrow> Inl e
      | Inr (r, s) \<Rightarrow> Inr (r, m\<lparr>model := s\<rparr>))"

section \<open>Runs\<close>

text \<open>
  What a caller can do to a model between its construction and the next reset: tick it, ask
  for a report, override the sync interval or the seed.
\<close>

datatype op = Tick | AskReport | Configure "int option" "int option"

fun run :: "env \<Rightarrow> op list \<Rightarrow> BookstoreModel \<Rightarrow> error + BookstoreModel" where
  "run E [] s = Inr s"
| "run E (Tick # ops) s = (case step E s of Inl e \<Rightarrow> Inl e | Inr s' \<Rightarrow> run E ops s')"
| "run E (AskReport # ops) s =
     (case generate_report E s of Inl e \<Rightarrow> Inl e | Inr (r, s') \<Rightarrow> run E ops s')"
| "run E (Configure i x # ops) s = run E ops (configure E i x s)"

text \<open>\<^verbatim>\<open>GreedyPurchasePolicy.choose_purchase\<close>: the first cheapest affordable book in stock.\<close>

fun cheapest :: "InventorySnapshot \<Rightarrow> InventorySnapshot list \<Rightarrow> InventorySnapshot" where
  "cheapest best [] = best"
| "cheapest best (item # items) = cheapest (if price item < price best then item else best) items"

definition GreedyPurchasePolicy ::
    "InventorySnapshot list \<Rightarrow> real \<Rightarrow> nat \<Rightarrow> (string \<times> real) option \<times> nat" where
  "GreedyPurchasePolicy inventory budget rng =
     (case filter (\<lambda>item. price item \<le> budget \<and> quantity item > 0) inventory of
        [] \<Rightarrow> (None, rng)
      | item # items \<Rightarrow>
          (let choice = cheapest item items in (Some (book_isbn choice, price choice), rng)))"

section \<open>A small store\<close>

definition demo_config :: SimulationSettings where
  "demo_config = \<lparr>max_steps = 100, customer_spawn_chance = 4 / 10, restock_threshold = 5,
     reasoner_sync_interval = 3, restock_amount = 10, random_seed = Some 12345\<rparr>"

definition demo_env :: env where
  "demo_env = \<lparr>rng_unseeded = 0, rng_seed = (\<lambda>x. nat x), rng_random = (\<lambda>r. (0, r)),
     rng_shuffle = (\<lambda>r keys. (keys, r)), choose_purchase = GreedyPurchasePolicy,
     sync_reasoner_pellet = None\<rparr>"

definition demo_ontology :: ontology where
  "demo_ontology = \<lparr>onto_Book = [(''A'', \<lparr>HasTitle = [''Book A''], HasPrice = [10]\<rparr>)],
     onto_Customer = [], onto_Employee = [], onto_Order = []\<rparr>"

definition demo_inventory :: "(string \<times> inv_entity) list" where
  "demo_inventory = [(''A'', \<lparr>AvailableQuantity = [3], LowThreshold = [5], NeedsRestock = [True]\<rparr>)]"

definition demo_model :: BookstoreModel where
  "demo_model = BookstoreModel_init demo_env demo_config demo_ontology demo_inventory"

definition demo_pending :: BookstoreModel where
  "demo_pending = demo_model\<lparr>pending_restocks := {''A''}\<rparr>"

definition purchase_message :: "string \<Rightarrow> string \<Rightarrow> Message" where
  "purchase_message isbn customer =
     \<lparr>topic = ''purchases'',
      payload = \<lparr>p_book_id = Some isbn, p_customer_id = Some customer, p_price = Some 10,
                 p_amount = None\<rparr>\<rparr>"

section \<open>The message bus\<close>

lemma queue_publish [simp]:
  "queue t (publish t' p bus) =
     (if t = t' then queue t bus @ [\<lparr>topic = t', payload = p\<rparr>] else queue t bus)"
  by (simp add: queue_def publish_def)

lemma queue_empty [simp]: "queue t Map.empty = []"
  by (simp add: queue_def)

lemma queue_upd [simp]: "queue t (bus(t' \<mapsto> q)) = (if t = t' then q else queue t bus)"
  by (simp add: queue_def)

lemma poll_queue:
  "poll t bus = (case queue t bus of [] \<Rightarrow> None | m # q \<Rightarrow> Some (m, bus(t \<mapsto> q)))"
  by (simp add: poll_def queue_def split: option.splits list.splits)

lemma process_purchase_events_empty:
  "queue ''purchases'' (message_bus s) = [] \<Longrightarrow> process_purchase_events s = s"
  by (subst process_purchase_events.simps) (simp add: poll_queue)

lemma process_purchase_events_Cons:
  "queue ''purchases'' (message_bus s) = m # q \<Longrightarrow>
   process_purchase_events s =
     process_purchase_events
       (apply_purchase_message m (s\<lparr>message_bus := (message_bus s)(''purchases'' \<mapsto> q)\<rparr>))"
  by (subst process_purchase_events.simps) (simp add: poll_queue)

lemma process_purchase_events_next:
  "queue ''purchases'' (message_bus s) \<noteq> [] \<Longrightarrow>
   process_purchase_events s =
     process_purchase_events
       (apply_purchase_message (hd (queue ''purchases'' (message_bus s)))
          (s\<lparr>message_bus :=
               (message_bus s)(''purchases'' \<mapsto> tl (queue ''purchases'' (message_bus s)))\<rparr>))"
  using process_purchase_events_Cons
          [of s "hd (queue ''purchases'' (message_bus s))" "tl (queue ''purchases'' (message_bus s))"]
  by simp

lemma EmployeeAgent_step_empty:
  "queue ''restock'' (message_bus s) = [] \<Longrightarrow> EmployeeAgent_step u s = s"
  by (subst EmployeeAgent_step.simps) (simp add: poll_queue)

lemma EmployeeAgent_step_Cons:
  "queue ''restock'' (message_bus s) = m # q \<Longrightarrow>
   EmployeeAgent_step u s =
     EmployeeAgent_step u
       (handle_restock_message u m (s\<lparr>message_bus := (message_bus s)(''restock'' \<mapsto> q)\<rparr>))"
  by (subst EmployeeAgent_step.simps) (simp add: poll_queue)

lemma EmployeeAgent_step_next:
  "queue ''restock'' (message_bus s) \<noteq> [] \<Longrightarrow>
   EmployeeAgent_step u s =
     EmployeeAgent_step u
       (handle_restock_message u (hd (queue ''restock'' (message_bus s)))
          (s\<lparr>message_bus :=
               (message_bus s)(''restock'' \<mapsto> tl (queue ''restock'' (message_bus s)))\<rparr>))"
  using EmployeeAgent_step_Cons
          [of s "hd (queue ''restock'' (message_bus s))" "tl (queue ''restock'' (message_bus s))" u]
  by simp

text \<open>Unfolding the model on a concrete store.\<close>

lemmas eval_defs = demo_model_def demo_ontology_def demo_inventory_def demo_config_def demo_env_def
  purchase_message_def
  BookstoreModel_init_def register_agents_def schedule_add_def create_model_def configure_def
  ensure_employee_entity_def ensure_customer_entity_def ensure_book_entity_def ensure_named_def
  step_def schedule_step_def activate_def CustomerAgent_step_def GreedyPurchasePolicy_def
  process_purchase_events_empty process_purchase_events_next
  EmployeeAgent_step_empty EmployeeAgent_step_next handle_restock_message_def
  apply_purchase_message_def record_purchase_def write_back_inventory_to_ontology_def
  sync_reasoner_if_needed_def enqueue_restock_requests_from_ontology_def log_reasoner_warning_def
  needs_restock_flag_def run_reasoner_def restock_inventory_def add_works_at_def generate_report_def
  inventory_summary_entry_def run_steps_def reset_def get_report_def
  Let_def order_name_of_def digit_char_def str_nat.simps

lemmas eval_congs = option.case_cong_weak list.case_cong_weak agent.case_cong_weak
  sum.case_cong_weak prod.case_cong_weak if_weak_cong let_weak_cong

section \<open>Restocking with a non-positive amount\<close>

text \<open>
  C9. For an isbn the ledger knows, \<open>restock_inventory\<close> with an amount of at most zero
  leaves every row as it is, takes the isbn out of the pending set and appends a restock event
  whose amount is the clamped increment 0; for an isbn the ledger does not know it changes
  nothing at all.
\<close>

theorem restock_inventory_nonpositive_amount:
  "(map_of (inventory_snapshots s) isbn = None \<longrightarrow>
      restock_inventory isbn amount e s = s) \<and>
   (\<forall>row. map_of (inventory_snapshots s) isbn = Some row \<and> amount \<le> 0 \<longrightarrow>
      inventory_snapshots (restock_inventory isbn amount e s) = inventory_snapshots s \<and>
      pending_restocks (restock_inventory isbn amount e s) = pending_restocks s - {isbn} \<and>
      restock_log (restock_inventory isbn amount e s) =
        restock_log s @ [\<lparr>ev_step = step_count s, ev_book_isbn = isbn, ev_amount = 0,
                          ev_employee_id = e\<rparr>])"
  by (auto simp: restock_inventory_def write_back_inventory_to_ontology_def ensure_book_entity_def
      ensure_employee_entity_def add_works_at_def Let_def update_triv max_def split: option.splits)

theorem restock_inventory_nonpositive_amount_witness:
  "restock_inventory ''Z'' (- 4) (Some ''employee::0'') demo_pending = demo_pending \<and>
   inventory_snapshots (restock_inventory ''A'' (- 4) (Some ''employee::0'') demo_pending) =
     inventory_snapshots demo_pending \<and>
   pending_restocks (restock_inventory ''A'' (- 4) (Some ''employee::0'') demo_pending) = {} \<and>
   restock_log (restock_inventory ''A'' (- 4) (Some ''employee::0'') demo_pending) =
     [\<lparr>ev_step = 0, ev_book_isbn = ''A'', ev_amount = 0, ev_employee_id = Some ''employee::0''\<rparr>]"
proof -
  have unknown: "map_of (inventory_snapshots demo_pending) ''Z'' = None"
    by (simp add: demo_pending_def eval_defs cong: eval_congs)
  have known: "map_of (inventory_snapshots demo_pending) ''A'' =
      Some \<lparr>book_isbn = ''A'', title = ''Book A'', quantity = 3, price = 10, low_threshold = 5\<rparr>"
    by (simp add: demo_pending_def eval_defs cong: eval_congs)
  have pend: "pending_restocks demo_pending - {''A''} = {}"
    and log: "restock_log demo_pending = []" and tick: "step_count demo_pending = 0"
    by (simp_all add: demo_pending_def eval_defs cong: eval_congs)
  have nonpos: "(- 4 :: int) \<le> 0"
    by simp
  note absent = restock_inventory_nonpositive_amount
      [of demo_pending "''Z''" "- 4" "Some ''employee::0''", THEN conjunct1, rule_format, OF unknown]
  note present = restock_inventory_nonpositive_amount
      [of demo_pending "''A''" "- 4" "Some ''employee::0''", THEN conjunct2, rule_format,
       OF conjI, OF known nonpos]
  show ?thesis
    using absent present unfolding pend log tick by simp
qed


section \<open>Applying purchases\<close>

lemma map_of_update_same [simp]: "map_of (AList.update k v al) k = Some v"
  by (simp add: update_conv')

lemma map_of_update_other [simp]: "k' \<noteq> k \<Longrightarrow> map_of (AList.update k v al) k' = map_of al k'"
  by (simp add: update_conv')

lemma map_fst_update_known:
  "map_of al k = Some v \<Longrightarrow> map fst (AList.update k v' al) = map fst al"
  by (induction al) (auto split: if_splits)

text \<open>What one valid purchase message does to a row in stock.\<close>

lemma apply_purchase_message_in_stock:
  assumes "p_book_id (payload m) = Some isbn" "isbn \<noteq> []" "p_customer_id (payload m) = Some c"
    and "map_of (inventory_snapshots s) isbn = Some row" "0 < quantity row"
  shows "inventory_snapshots (apply_purchase_message m s) =
           AList.update isbn (row\<lparr>quantity := quantity row - 1\<rparr>) (inventory_snapshots s)"
    and "purchase_log (apply_purchase_message m s) =
           purchase_log s @
             [\<lparr>pl_order = order_name_of (order_counter s), pl_customer = c, pl_book = isbn,
               pl_price = (case p_price (payload m) of None \<Rightarrow> 0 | Some x \<Rightarrow> x),
               pl_step = step_count s\<rparr>]"
    and "order_counter (apply_purchase_message m s) = order_counter s + 1"
    and "pending_restocks (apply_purchase_message m s) = pending_restocks s"
    and "restock_log (apply_purchase_message m s) = restock_log s"
proof -
  have dec: "max (quantity row - 1) 0 = quantity row - 1"
    using assms(5) by simp
  note defs = apply_purchase_message_def record_purchase_def
      write_back_inventory_to_ontology_def ensure_book_entity_def ensure_customer_entity_def
      Let_def dec
  show "inventory_snapshots (apply_purchase_message m s) =
           AList.update isbn (row\<lparr>quantity := quantity row - 1\<rparr>) (inventory_snapshots s)"
    using assms by (simp add: defs)
  show "purchase_log (apply_purchase_message m s) =
           purchase_log s @
             [\<lparr>pl_order = order_name_of (order_counter s), pl_customer = c, pl_book = isbn,
               pl_price = (case p_price (payload m) of None \<Rightarrow> 0 | Some x \<Rightarrow> x),
               pl_step = step_count s\<rparr>]"
    using assms by (simp add: defs)
  show "order_counter (apply_purchase_message m s) = order_counter s + 1"
    using assms by (simp add: defs)
  show "pending_restocks (apply_purchase_message m s) = pending_restocks s"
    using assms by (simp add: defs)
  show "restock_log (apply_purchase_message m s) = restock_log s"
    using assms by (simp add: defs)
qed

lemma apply_purchase_message_rejected:
  "p_book_id (payload m) = None \<or> p_book_id (payload m) = Some [] \<or>
   p_customer_id (payload m) = None \<or>
   (\<exists>isbn. p_book_id (payload m) = Some isbn \<and>
      (case map_of (inventory_snapshots s) isbn of None \<Rightarrow> True | Some row \<Rightarrow> quantity row \<le> 0))
   \<Longrightarrow> apply_purchase_message m s = s"
  by (auto simp: apply_purchase_message_def Let_def split: option.splits)

text \<open>
  C6. A purchase message with a book id and a customer id leaves the model as it is when the
  isbn has no row or the row's quantity is not positive; otherwise it takes exactly one copy
  off that row, keeps the row set and every other row, and appends one purchase record.
\<close>

theorem apply_purchase_contract:
  assumes "p_book_id (payload m) = Some isbn" and "isbn \<noteq> []"
    and "p_customer_id (payload m) = Some c"
  shows "(map_of (inventory_snapshots s) isbn = None \<longrightarrow> apply_purchase_message m s = s) \<and>
         (\<forall>row. map_of (inventory_snapshots s) isbn = Some row \<and> quantity row \<le> 0 \<longrightarrow>
            apply_purchase_message m s = s) \<and>
         (\<forall>row. map_of (inventory_snapshots s) isbn = Some row \<and> 0 < quantity row \<longrightarrow>
            map_of (inventory_snapshots (apply_purchase_message m s)) isbn =
              Some (row\<lparr>quantity := quantity row - 1\<rparr>) \<and>
            (\<forall>k. k \<noteq> isbn \<longrightarrow>
               map_of (inventory_snapshots (apply_purchase_message m s)) k =
               map_of (inventory_snapshots s) k) \<and>
            map fst (inventory_snapshots (apply_purchase_message m s)) =
              map fst (inventory_snapshots s) \<and>
            length (purchase_log (apply_purchase_message m s)) = length (purchase_log s) + 1)"
proof (intro conjI allI impI)
  assume "map_of (inventory_snapshots s) isbn = None"
  with assms show "apply_purchase_message m s = s"
    by (intro apply_purchase_message_rejected) simp
next
  fix row assume "map_of (inventory_snapshots s) isbn = Some row \<and> quantity row \<le> 0"
  with assms show "apply_purchase_message m s = s"
    by (intro apply_purchase_message_rejected) simp
next
  fix row assume r: "map_of (inventory_snapshots s) isbn = Some row \<and> 0 < quantity row"
  note st = apply_purchase_message_in_stock [OF assms r [THEN conjunct1] r [THEN conjunct2]]
  show "map_of (inventory_snapshots (apply_purchase_message m s)) isbn =
          Some (row\<lparr>quantity := quantity row - 1\<rparr>)"
    by (simp add: st(1))
  show "length (purchase_log (apply_purchase_message m s)) = length (purchase_log s) + 1"
    by (simp add: st(2))
  show "map fst (inventory_snapshots (apply_purchase_message m s)) =
          map fst (inventory_snapshots s)"
    using r by (simp add: st(1) map_fst_update_known)
  fix k assume "k \<noteq> isbn"
  then show "map_of (inventory_snapshots (apply_purchase_message m s)) k =
          map_of (inventory_snapshots s) k"
    by (simp add: st(1))
qed

theorem apply_purchase_contract_witness:
  "apply_purchase_message (purchase_message ''Z'' ''customer::0'') demo_model = demo_model \<and>
   map_of (inventory_snapshots
      (apply_purchase_message (purchase_message ''A'' ''customer::0'') demo_model)) ''A'' =
     Some \<lparr>book_isbn = ''A'', title = ''Book A'', quantity = 2, price = 10, low_threshold = 5\<rparr> \<and>
   length (purchase_log
      (apply_purchase_message (purchase_message ''A'' ''customer::0'') demo_model)) = 1"
proof -
  have unknown: "map_of (inventory_snapshots demo_model) ''Z'' = None"
    by (simp add: eval_defs cong: eval_congs)
  have known: "map_of (inventory_snapshots demo_model) ''A'' =
      Some \<lparr>book_isbn = ''A'', title = ''Book A'', quantity = 3, price = 10, low_threshold = 5\<rparr> \<and>
      0 < quantity \<lparr>book_isbn = ''A'', title = ''Book A'', quantity = 3, price = 10, low_threshold = 5\<rparr>"
    by (simp add: eval_defs cong: eval_congs)
  have log: "purchase_log demo_model = []"
    by (simp add: eval_defs cong: eval_congs)
  have z: "p_book_id (payload (purchase_message ''Z'' ''customer::0'')) = Some ''Z''"
      "''Z'' \<noteq> []"
      "p_customer_id (payload (purchase_message ''Z'' ''customer::0'')) = Some ''customer::0''"
    and a: "p_book_id (payload (purchase_message ''A'' ''customer::0'')) = Some ''A''"
      "''A'' \<noteq> []"
      "p_customer_id (payload (purchase_message ''A'' ''customer::0'')) = Some ''customer::0''"
    by (simp_all add: purchase_message_def)
  note absent = apply_purchase_contract [OF z, of demo_model, THEN conjunct1, rule_format, OF unknown]
  note present = apply_purchase_contract
      [OF a, of demo_model, THEN conjunct2, THEN conjunct2, rule_format, OF known]
  show ?thesis
    using absent present by (simp add: log)
qed

text \<open>
  C10. A purchase message whose book id is the empty string is dropped and nothing else
  changes; one whose customer id is the empty string, for a row in stock, is applied: the
  row loses a copy and a record for the customer \<open>''''\<close> is appended. Only an absent
  customer id is rejected.
\<close>

theorem purchase_validation_asymmetric:
  "(p_book_id (payload m) = Some [] \<longrightarrow> apply_purchase_message m s = s) \<and>
   (p_book_id (payload m) = Some [] \<and> queue ''purchases'' (message_bus s) = [m] \<longrightarrow>
      process_purchase_events s = s\<lparr>message_bus := (message_bus s)(''purchases'' \<mapsto> [])\<rparr>) \<and>
   (p_customer_id (payload m) = None \<longrightarrow> apply_purchase_message m s = s) \<and>
   (\<forall>isbn row. p_book_id (payload m) = Some isbn \<and> isbn \<noteq> [] \<and>
        p_customer_id (payload m) = Some [] \<and>
        map_of (inventory_snapshots s) isbn = Some row \<and> 0 < quantity row \<longrightarrow>
      map_of (inventory_snapshots (apply_purchase_message m s)) isbn =
        Some (row\<lparr>quantity := quantity row - 1\<rparr>) \<and>
      purchase_log (apply_purchase_message m s) =
        purchase_log s @
          [\<lparr>pl_order = order_name_of (order_counter s), pl_customer = [], pl_book = isbn,
            pl_price = (case p_price (payload m) of None \<Rightarrow> 0 | Some x \<Rightarrow> x),
            pl_step = step_count s\<rparr>])"
proof (intro conjI allI impI)
  assume "p_book_id (payload m) = Some []"
  then show "apply_purchase_message m s = s"
    by (intro apply_purchase_message_rejected) simp
next
  assume "p_customer_id (payload m) = None"
  then show "apply_purchase_message m s = s"
    by (intro apply_purchase_message_rejected) simp
next
  assume a: "p_book_id (payload m) = Some [] \<and> queue ''purchases'' (message_bus s) = [m]"
  let ?s1 = "s\<lparr>message_bus := (message_bus s)(''purchases'' \<mapsto> [])\<rparr>"
  have "apply_purchase_message m ?s1 = ?s1"
    using a by (intro apply_purchase_message_rejected) simp
  moreover have "process_purchase_events ?s1 = ?s1"
    by (rule process_purchase_events_empty) simp
  ultimately show "process_purchase_events s = ?s1"
    using a by (simp add: process_purchase_events_Cons [of s m "[]"])
next
  fix isbn row
  assume a: "p_book_id (payload m) = Some isbn \<and> isbn \<noteq> [] \<and>
        p_customer_id (payload m) = Some [] \<and>
        map_of (inventory_snapshots s) isbn = Some row \<and> 0 < quantity row"
  then have st: "p_book_id (payload m) = Some isbn" "isbn \<noteq> []"
      "p_customer_id (payload m) = Some []" "map_of (inventory_snapshots s) isbn = Some row"
      "0 < quantity row"
    by simp_all
  show "map_of (inventory_snapshots (apply_purchase_message m s)) isbn =
        Some (row\<lparr>quantity := quantity row - 1\<rparr>)"
    by (simp add: apply_purchase_message_in_stock(1) [OF st])
  show "purchase_log (apply_purchase_message m s) =
        purchase_log s @
          [\<lparr>pl_order = order_name_of (order_counter s), pl_customer = [], pl_book = isbn,
            pl_price = (case p_price (payload m) of None \<Rightarrow> 0 | Some x \<Rightarrow> x),
            pl_step = step_count s\<rparr>]"
    by (rule apply_purchase_message_in_stock(2) [OF st])
qed


theorem purchase_validation_asymmetric_witness:
  "apply_purchase_message (purchase_message [] ''customer::0'') demo_model = demo_model \<and>
   process_purchase_events
     (demo_model\<lparr>message_bus := (message_bus demo_model)
        (''purchases'' \<mapsto> [purchase_message [] ''customer::0''])\<rparr>) =
     demo_model\<lparr>message_bus := (message_bus demo_model)(''purchases'' \<mapsto> [])\<rparr> \<and>
   map_of (inventory_snapshots
      (apply_purchase_message (purchase_message ''A'' []) demo_model)) ''A'' =
     Some \<lparr>book_isbn = ''A'', title = ''Book A'', quantity = 2, price = 10, low_threshold = 5\<rparr> \<and>
   purchase_log (apply_purchase_message (purchase_message ''A'' []) demo_model) =
     [\<lparr>pl_order = ''order_0'', pl_customer = [], pl_book = ''A'', pl_price = 10, pl_step = 0\<rparr>]"
proof -
  let ?queued = "demo_model\<lparr>message_bus := (message_bus demo_model)
        (''purchases'' \<mapsto> [purchase_message [] ''customer::0''])\<rparr>"
  have empty_id: "p_book_id (payload (purchase_message [] ''customer::0'')) = Some []"
    by (simp add: purchase_message_def)
  have queued: "p_book_id (payload (purchase_message [] ''customer::0'')) = Some [] \<and>
      queue ''purchases'' (message_bus ?queued) = [purchase_message [] ''customer::0'']"
    by (simp add: purchase_message_def)
  have known: "p_book_id (payload (purchase_message ''A'' [])) = Some ''A'' \<and> ''A'' \<noteq> [] \<and>
      p_customer_id (payload (purchase_message ''A'' [])) = Some [] \<and>
      map_of (inventory_snapshots demo_model) ''A'' =
        Some \<lparr>book_isbn = ''A'', title = ''Book A'', quantity = 3, price = 10, low_threshold = 5\<rparr> \<and>
      0 < quantity \<lparr>book_isbn = ''A'', title = ''Book A'', quantity = 3, price = 10,
                     low_threshold = 5\<rparr>"
    by (simp add: eval_defs cong: eval_congs)
  have start: "purchase_log demo_model = []" "order_counter demo_model = 0"
      "step_count demo_model = 0"
    by (simp_all add: eval_defs cong: eval_congs)
  have name: "order_name_of 0 = ''order_0''"
    by (simp add: order_name_of_def digit_char_def str_nat.simps)
  have cost: "p_price (payload (purchase_message ''A'' [])) = Some 10"
    by (simp add: purchase_message_def)
  note dropped = purchase_validation_asymmetric
      [of "purchase_message [] ''customer::0''" demo_model, THEN conjunct1, rule_format,
       OF empty_id]
  note drained = purchase_validation_asymmetric
      [of "purchase_message [] ''customer::0''" ?queued, THEN conjunct2, THEN conjunct1,
       rule_format, OF queued]
  note applied = purchase_validation_asymmetric
      [of "purchase_message ''A'' []" demo_model, THEN conjunct2, THEN conjunct2, THEN conjunct2,
       rule_format, OF known]
  show ?thesis
    using dropped drained applied by (simp add: start name cost)
qed

section \<open>What each operation leaves alone\<close>

lemma set_update_subset: "set (AList.update k v al) \<subseteq> insert (k, v) (set al)"
  by (induction al) auto

lemma map_of_SomeD_set: "map_of al k = Some v \<Longrightarrow> (k, v) \<in> set al"
  by (rule map_of_SomeD)

lemma keys_update_known:
  "map_of al k = Some v \<Longrightarrow> fst ` set (AList.update k v' al) = fst ` set al"
  by (auto simp: dom_update dest: map_of_SomeD intro: rev_image_eqI)

lemma restock_inventory_unknown:
  "map_of (inventory_snapshots s) b = None \<Longrightarrow> restock_inventory b a e s = s"
  by (simp add: restock_inventory_def)

lemma restock_inventory_known:
  assumes "map_of (inventory_snapshots s) b = Some row"
  shows "inventory_snapshots (restock_inventory b a e s) =
           AList.update b (row\<lparr>quantity := quantity row + max a 0\<rparr>) (inventory_snapshots s)"
    and "pending_restocks (restock_inventory b a e s) = pending_restocks s - {b}"
    and "inventory_entities (restock_inventory b a e s) =
           AList.update (book_isbn row)
             \<lparr>AvailableQuantity = [quantity row + max a 0], LowThreshold = [low_threshold row],
              NeedsRestock = [quantity row + max a 0 < low_threshold row]\<rparr>
             (inventory_entities s)"
    and "restock_log (restock_inventory b a e s) =
           restock_log s @ [\<lparr>ev_step = step_count s, ev_book_isbn = b, ev_amount = max a 0,
                             ev_employee_id = e\<rparr>]"
  using assms
  by (simp_all add: restock_inventory_def write_back_inventory_to_ontology_def
      ensure_book_entity_def ensure_employee_entity_def add_works_at_def Let_def
      split: option.splits)

lemma restock_inventory_fields [simp]:
  "purchase_log (restock_inventory b a e s) = purchase_log s"
  "order_counter (restock_inventory b a e s) = order_counter s"
  "step_count (restock_inventory b a e s) = step_count s"
  "config (restock_inventory b a e s) = config s"
  "schedule (restock_inventory b a e s) = schedule s"
  "random (restock_inventory b a e s) = random s"
  "reasoner_available (restock_inventory b a e s) = reasoner_available s"
  "reasoner_warning_emitted (restock_inventory b a e s) = reasoner_warning_emitted s"
  "warnings (restock_inventory b a e s) = warnings s"
  by (simp_all add: restock_inventory_def write_back_inventory_to_ontology_def
      ensure_book_entity_def ensure_employee_entity_def add_works_at_def Let_def
      split: option.splits)

lemma handle_restock_message_fields [simp]:
  "purchase_log (handle_restock_message u m s) = purchase_log s"
  "order_counter (handle_restock_message u m s) = order_counter s"
  "step_count (handle_restock_message u m s) = step_count s"
  "config (handle_restock_message u m s) = config s"
  "schedule (handle_restock_message u m s) = schedule s"
  "random (handle_restock_message u m s) = random s"
  "reasoner_available (handle_restock_message u m s) = reasoner_available s"
  "reasoner_warning_emitted (handle_restock_message u m s) = reasoner_warning_emitted s"
  "warnings (handle_restock_message u m s) = warnings s"
  by (simp_all add: handle_restock_message_def split: option.splits)

lemma apply_purchase_message_fields [simp]:
  "pending_restocks (apply_purchase_message m s) = pending_restocks s"
  "restock_log (apply_purchase_message m s) = restock_log s"
  "step_count (apply_purchase_message m s) = step_count s"
  "config (apply_purchase_message m s) = config s"
  "schedule (apply_purchase_message m s) = schedule s"
  "random (apply_purchase_message m s) = random s"
  "reasoner_available (apply_purchase_message m s) = reasoner_available s"
  "reasoner_warning_emitted (apply_purchase_message m s) = reasoner_warning_emitted s"
  "warnings (apply_purchase_message m s) = warnings s"
  by (simp_all add: apply_purchase_message_def record_purchase_def
      write_back_inventory_to_ontology_def ensure_book_entity_def ensure_customer_entity_def
      Let_def split: option.splits)

text \<open>A purchase message either changes nothing or is a sale from a row in stock.\<close>

lemma apply_purchase_message_cases:
  obtains (rejected) "apply_purchase_message m s = s"
  | (sold) isbn c row where "p_book_id (payload m) = Some isbn" "isbn \<noteq> []"
      "p_customer_id (payload m) = Some c" "map_of (inventory_snapshots s) isbn = Some row"
      "0 < quantity row"
proof (cases "\<exists>isbn c row. p_book_id (payload m) = Some isbn \<and> isbn \<noteq> [] \<and>
      p_customer_id (payload m) = Some c \<and> map_of (inventory_snapshots s) isbn = Some row \<and>
      0 < quantity row")
  case True
  then show ?thesis using sold by blast
next
  case False
  have "apply_purchase_message m s = s"
  proof (rule apply_purchase_message_rejected)
    show "p_book_id (payload m) = None \<or> p_book_id (payload m) = Some [] \<or>
      p_customer_id (payload m) = None \<or>
      (\<exists>isbn. p_book_id (payload m) = Some isbn \<and>
         (case map_of (inventory_snapshots s) isbn of None \<Rightarrow> True | Some row \<Rightarrow> quantity row \<le> 0))"
      using False
      by (cases "p_book_id (payload m)"; cases "p_customer_id (payload m)")
         (auto simp: not_less split: option.splits)
  qed
  then show ?thesis by (rule rejected)
qed

lemma apply_purchase_message_entities:
  assumes "p_book_id (payload m) = Some isbn" "isbn \<noteq> []" "p_customer_id (payload m) = Some c"
    and "map_of (inventory_snapshots s) isbn = Some row" "0 < quantity row"
  shows "inventory_entities (apply_purchase_message m s) =
           AList.update (book_isbn row)
             \<lparr>AvailableQuantity = [quantity row - 1], LowThreshold = [low_threshold row],
              NeedsRestock = [quantity row - 1 < low_threshold row]\<rparr>
             (inventory_entities s)"
proof -
  have dec: "max (quantity row - 1) 0 = quantity row - 1"
    using assms(5) by simp
  show ?thesis
    using assms
    by (simp add: apply_purchase_message_def record_purchase_def
        write_back_inventory_to_ontology_def ensure_book_entity_def ensure_customer_entity_def
        Let_def dec)
qed

lemma CustomerAgent_step_fields [simp]:
  "inventory_snapshots (snd (CustomerAgent_step E u b s)) = inventory_snapshots s"
  "inventory_entities (snd (CustomerAgent_step E u b s)) = inventory_entities s"
  "pending_restocks (snd (CustomerAgent_step E u b s)) = pending_restocks s"
  "purchase_log (snd (CustomerAgent_step E u b s)) = purchase_log s"
  "restock_log (snd (CustomerAgent_step E u b s)) = restock_log s"
  "order_counter (snd (CustomerAgent_step E u b s)) = order_counter s"
  "step_count (snd (CustomerAgent_step E u b s)) = step_count s"
  "config (snd (CustomerAgent_step E u b s)) = config s"
  "schedule (snd (CustomerAgent_step E u b s)) = schedule s"
  "reasoner_available (snd (CustomerAgent_step E u b s)) = reasoner_available s"
  "reasoner_warning_emitted (snd (CustomerAgent_step E u b s)) = reasoner_warning_emitted s"
  "warnings (snd (CustomerAgent_step E u b s)) = warnings s"
  "queue ''restock'' (message_bus (snd (CustomerAgent_step E u b s))) =
     queue ''restock'' (message_bus s)"
  by (simp_all add: CustomerAgent_step_def Let_def split: prod.splits option.splits)

text \<open>Loops: what holds before and is kept by the body holds after.\<close>

lemma EmployeeAgent_step_rule:
  assumes start: "P s"
    and body: "\<And>s m q. P s \<Longrightarrow> queue ''restock'' (message_bus s) = m # q \<Longrightarrow>
           P (handle_restock_message u m (s\<lparr>message_bus := (message_bus s)(''restock'' \<mapsto> q)\<rparr>))"
  shows "P (EmployeeAgent_step u s)"
proof -
  have "length (queue ''restock'' (message_bus s)) = n \<Longrightarrow> P s \<Longrightarrow> P (EmployeeAgent_step u s)"
    for n s
  proof (induction n arbitrary: s)
    case 0
    then show ?case by (simp add: EmployeeAgent_step_empty)
  next
    case (Suc n)
    from Suc.prems(1) obtain m q where mq: "queue ''restock'' (message_bus s) = m # q"
      by (cases "queue ''restock'' (message_bus s)") simp_all
    let ?s1 = "handle_restock_message u m (s\<lparr>message_bus := (message_bus s)(''restock'' \<mapsto> q)\<rparr>)"
    have p1: "P ?s1"
      using Suc.prems(2) mq by (rule body)
    have len: "length (queue ''restock'' (message_bus ?s1)) = n"
      using Suc.prems(1) mq by simp
    have "P (EmployeeAgent_step u ?s1)"
      using len p1 by (rule Suc.IH)
    then show ?case
      by (simp only: EmployeeAgent_step_Cons [OF mq])
  qed
  then show ?thesis
    using start by blast
qed

lemma process_purchase_events_rule:
  assumes start: "P s"
    and body: "\<And>s m q. P s \<Longrightarrow> queue ''purchases'' (message_bus s) = m # q \<Longrightarrow>
           P (apply_purchase_message m (s\<lparr>message_bus := (message_bus s)(''purchases'' \<mapsto> q)\<rparr>))"
  shows "P (process_purchase_events s)"
proof -
  have "length (queue ''purchases'' (message_bus s)) = n \<Longrightarrow> P s \<Longrightarrow> P (process_purchase_events s)"
    for n s
  proof (induction n arbitrary: s)
    case 0
    then show ?case by (simp add: process_purchase_events_empty)
  next
    case (Suc n)
    from Suc.prems(1) obtain m q where mq: "queue ''purchases'' (message_bus s) = m # q"
      by (cases "queue ''purchases'' (message_bus s)") simp_all
    let ?s1 = "apply_purchase_message m (s\<lparr>message_bus := (message_bus s)(''purchases'' \<mapsto> q)\<rparr>)"
    have p1: "P ?s1"
      using Suc.prems(2) mq by (rule body)
    have len: "length (queue ''purchases'' (message_bus ?s1)) = n"
      using Suc.prems(1) mq by simp
    have "P (process_purchase_events ?s1)"
      using len p1 by (rule Suc.IH)
    then show ?case
      by (simp only: process_purchase_events_Cons [OF mq])
  qed
  then show ?thesis
    using start by blast
qed

lemma foldl_rule:
  assumes "P s" and "\<And>s x. P s \<Longrightarrow> P (f s x)"
  shows "P (foldl f s xs)"
  using assms(1)
proof (induction xs arbitrary: s)
  case Nil
  then show ?case by simp
next
  case (Cons x xs)
  have "P (f s x)" using Cons.prems by (rule assms(2))
  then have "P (foldl f (f s x) xs)" by (rule Cons.IH)
  then show ?case by simp
qed

lemma schedule_step_rule:
  assumes start: "\<And>r. P (s\<lparr>random := r\<rparr>)"
    and body: "\<And>s key. P s \<Longrightarrow> P (activate E key s)"
  shows "P (schedule_step E s)"
proof -
  obtain order r where sh: "rng_shuffle E (random s) (map fst (schedule s)) = (order, r)"
    by (cases "rng_shuffle E (random s) (map fst (schedule s))")
  have "P (foldl (\<lambda>s' key. activate E key s') (s\<lparr>random := r\<rparr>) order)"
    by (rule foldl_rule) (rule start, rule body)
  then show ?thesis
    by (simp add: schedule_step_def sh)
qed

lemma enqueue_loop_fields:
  "enqueue_loop fb es s = Inr s' \<Longrightarrow>
     inventory_snapshots s' = inventory_snapshots s \<and>
     inventory_entities s' = inventory_entities s \<and>
     purchase_log s' = purchase_log s \<and>
     restock_log s' = restock_log s \<and>
     order_counter s' = order_counter s \<and>
     step_count s' = step_count s \<and>
     config s' = config s \<and>
     schedule s' = schedule s \<and>
     random s' = random s \<and>
     reasoner_available s' = reasoner_available s \<and>
     reasoner_warning_emitted s' = reasoner_warning_emitted s \<and>
     warnings s' = warnings s \<and>
     ontology s' = ontology s \<and>
     queue ''purchases'' (message_bus s') = queue ''purchases'' (message_bus s)"
proof (induction es arbitrary: s)
  case Nil
  then show ?case by simp
next
  case (Cons e es)
  obtain isbn item where e: "e = (isbn, item)" by (cases e)
  from Cons.prems e obtain row where row: "map_of (inventory_snapshots s) isbn = Some row"
    by (auto split: option.splits)
  let ?s1 = "s\<lparr>message_bus :=
                 publish ''restock''
                   \<lparr>p_book_id = Some isbn, p_customer_id = None, p_price = None,
                    p_amount = Some (restock_amount (config s))\<rparr>
                   (message_bus s),
               pending_restocks := insert isbn (pending_restocks s)\<rparr>"
  from Cons.prems e row have "enqueue_loop fb es s = Inr s' \<or> enqueue_loop fb es ?s1 = Inr s'"
    by (simp add: Let_def split: if_splits)
  then show ?case
  proof
    assume "enqueue_loop fb es s = Inr s'"
    then show ?thesis by (rule Cons.IH)
  next
    assume "enqueue_loop fb es ?s1 = Inr s'"
    from Cons.IH [OF this] show ?thesis by simp
  qed
qed


section \<open>Invariants of a run\<close>

text \<open>Every row's quantity is non-negative.\<close>

definition quantities_ok :: "BookstoreModel \<Rightarrow> bool" where
  "quantities_ok s \<longleftrightarrow> (\<forall>(isbn, row) \<in> set (inventory_snapshots s). 0 \<le> quantity row)"

text \<open>
  Every row is stored under its own isbn, and every inventory individual the model holds
  belongs to a row.
\<close>

definition ledger_ok :: "BookstoreModel \<Rightarrow> bool" where
  "ledger_ok s \<longleftrightarrow>
     (\<forall>(isbn, row) \<in> set (inventory_snapshots s). book_isbn row = isbn) \<and>
     fst ` set (inventory_entities s) \<subseteq> fst ` set (inventory_snapshots s)"

lemma inventory_entities_log_reasoner_warning [simp]:
  "inventory_entities (log_reasoner_warning s) = inventory_entities s"
  by (simp add: log_reasoner_warning_def)

text \<open>The four ways through \<open>sync_reasoner_if_needed\<close>.\<close>

lemma sync_reasoner_if_needed_cases:
  obtains (not_due) "\<not> force" "reasoner_sync_interval (config s) \<noteq> 0"
      "step_count s mod reasoner_sync_interval (config s) \<noteq> 0"
      "sync_reasoner_if_needed E force s =
         enqueue_loop (\<not> reasoner_available s) (inventory_entities s) s"
  | (unavailable) "\<not> reasoner_available s"
      "sync_reasoner_if_needed E force s =
         enqueue_loop True (inventory_entities s) (log_reasoner_warning s)"
  | (failed) "reasoner_available s" "run_reasoner E s = None"
      "sync_reasoner_if_needed E force s =
         enqueue_loop True (inventory_entities s)
           (s\<lparr>reasoner_available := False, warnings := warnings s @ [ReasonerFailed]\<rparr>)"
  | (inferred) f where "reasoner_available s" "run_reasoner E s = Some f"
      "sync_reasoner_if_needed E force s =
         enqueue_loop False (map (\<lambda>(isbn, item). (isbn, f isbn)) (inventory_entities s))
           (s\<lparr>inventory_entities :=
                map (\<lambda>(isbn, item). (isbn, f isbn)) (inventory_entities s)\<rparr>)"
proof (cases "\<not> force \<and> reasoner_sync_interval (config s) \<noteq> 0 \<and>
    step_count s mod reasoner_sync_interval (config s) \<noteq> 0")
  case True
  then show ?thesis
    by (intro not_due)
       (simp_all add: sync_reasoner_if_needed_def enqueue_restock_requests_from_ontology_def)
next
  case due: False
  show ?thesis
  proof (cases "reasoner_available s")
    case False
    with due show ?thesis
      by (intro unavailable)
         (auto simp: sync_reasoner_if_needed_def enqueue_restock_requests_from_ontology_def
            Let_def)
  next
    case avail: True
    show ?thesis
    proof (cases "run_reasoner E s")
      case None
      with due avail show ?thesis
        by (intro failed)
           (auto simp: sync_reasoner_if_needed_def enqueue_restock_requests_from_ontology_def
              Let_def)
    next
      case (Some f)
      with due avail show ?thesis
        by (intro inferred [of f])
           (auto simp: sync_reasoner_if_needed_def enqueue_restock_requests_from_ontology_def
              Let_def)
    qed
  qed
qed

lemma sync_reasoner_if_needed_fields:
  assumes "sync_reasoner_if_needed E force s = Inr s'"
  shows "inventory_snapshots s' = inventory_snapshots s"
    and "purchase_log s' = purchase_log s"
    and "restock_log s' = restock_log s"
    and "order_counter s' = order_counter s"
    and "step_count s' = step_count s"
    and "config s' = config s"
    and "schedule s' = schedule s"
    and "random s' = random s"
    and "ontology s' = ontology s"
    and "map fst (inventory_entities s') = map fst (inventory_entities s)"
    and "queue ''purchases'' (message_bus s') = queue ''purchases'' (message_bus s)"
proof -
  have "inventory_snapshots s' = inventory_snapshots s \<and> purchase_log s' = purchase_log s \<and>
    restock_log s' = restock_log s \<and> order_counter s' = order_counter s \<and>
    step_count s' = step_count s \<and> config s' = config s \<and> schedule s' = schedule s \<and>
    random s' = random s \<and> ontology s' = ontology s \<and>
    map fst (inventory_entities s') = map fst (inventory_entities s) \<and>
    queue ''purchases'' (message_bus s') = queue ''purchases'' (message_bus s)"
  proof (cases E force s rule: sync_reasoner_if_needed_cases)
    case not_due
    from enqueue_loop_fields [OF assms [unfolded not_due(4)]] show ?thesis by simp
  next
    case unavailable
    from enqueue_loop_fields [OF assms [unfolded unavailable(2)]] show ?thesis
      by (simp add: log_reasoner_warning_def)
  next
    case failed
    from enqueue_loop_fields [OF assms [unfolded failed(3)]] show ?thesis by simp
  next
    case (inferred f)
    from enqueue_loop_fields [OF assms [unfolded inferred(3)]] show ?thesis
      by (simp add: comp_def case_prod_unfold)
  qed
  then show "inventory_snapshots s' = inventory_snapshots s"
    and "purchase_log s' = purchase_log s"
    and "restock_log s' = restock_log s"
    and "order_counter s' = order_counter s"
    and "step_count s' = step_count s"
    and "config s' = config s"
    and "schedule s' = schedule s"
    and "random s' = random s"
    and "ontology s' = ontology s"
    and "map fst (inventory_entities s') = map fst (inventory_entities s)"
    and "queue ''purchases'' (message_bus s') = queue ''purchases'' (message_bus s)"
    by simp_all
qed

lemma configure_fields [simp]:
  "inventory_snapshots (configure E i x s) = inventory_snapshots s"
  "inventory_entities (configure E i x s) = inventory_entities s"
  "pending_restocks (configure E i x s) = pending_restocks s"
  "message_bus (configure E i x s) = message_bus s"
  "purchase_log (configure E i x s) = purchase_log s"
  "restock_log (configure E i x s) = restock_log s"
  "order_counter (configure E i x s) = order_counter s"
  "step_count (configure E i x s) = step_count s"
  "schedule (configure E i x s) = schedule s"
  "reasoner_available (configure E i x s) = reasoner_available s"
  "reasoner_warning_emitted (configure E i x s) = reasoner_warning_emitted s"
  "warnings (configure E i x s) = warnings s"
  by (simp_all add: configure_def Let_def split: option.splits)

lemma activate_customer:
  "map_of (schedule s) key = Some (CustomerAgent budget) \<Longrightarrow>
   activate E key s =
     (snd (CustomerAgent_step E key budget s))
       \<lparr>schedule := AList.update key (CustomerAgent (fst (CustomerAgent_step E key budget s)))
          (schedule s)\<rparr>"
  by (simp add: activate_def case_prod_unfold Let_def)

text \<open>An activation is a no-op, the employee's drain, or one customer's step.\<close>

lemma activate_rule:
  assumes "P s"
    and "\<And>u. P (EmployeeAgent_step u s)"
    and "\<And>u b sch. P ((snd (CustomerAgent_step E u b s))\<lparr>schedule := sch\<rparr>)"
  shows "P (activate E key s)"
proof (cases "map_of (schedule s) key")
  case None
  then show ?thesis using assms(1) by (simp add: activate_def)
next
  case (Some a)
  then show ?thesis
    using assms by (cases a) (simp_all add: activate_def case_prod_unfold Let_def)
qed

subsection \<open>Quantities\<close>

lemma quantities_ok_bus [simp]:
  "quantities_ok (s\<lparr>message_bus := bus\<rparr>) = quantities_ok s"
  "quantities_ok (s\<lparr>random := r\<rparr>) = quantities_ok s"
  "quantities_ok (s\<lparr>schedule := sch\<rparr>) = quantities_ok s"
  "quantities_ok (s\<lparr>step_count := n\<rparr>) = quantities_ok s"
  by (simp_all add: quantities_ok_def)

lemma quantities_ok_update:
  assumes "quantities_ok s" and "0 \<le> quantity row'"
    and "inventory_snapshots s' = AList.update b row' (inventory_snapshots s)"
  shows "quantities_ok s'"
  using assms set_update_subset [of b row' "inventory_snapshots s"]
  by (auto simp: quantities_ok_def)

lemma quantities_ok_restock_inventory:
  assumes "quantities_ok s"
  shows "quantities_ok (restock_inventory b a e s)"
proof (cases "map_of (inventory_snapshots s) b")
  case None
  then show ?thesis using assms by (simp add: restock_inventory_unknown)
next
  case (Some row)
  then have "(b, row) \<in> set (inventory_snapshots s)" by (rule map_of_SomeD)
  with assms have "0 \<le> quantity row" by (auto simp: quantities_ok_def)
  then have "0 \<le> quantity (row\<lparr>quantity := quantity row + max a 0\<rparr>)" by simp
  with assms show ?thesis
    by (rule quantities_ok_update) (rule restock_inventory_known(1) [OF Some])
qed

lemma quantities_ok_handle_restock_message:
  "quantities_ok s \<Longrightarrow> quantities_ok (handle_restock_message u m s)"
  by (simp add: handle_restock_message_def quantities_ok_restock_inventory split: option.splits)

lemma quantities_ok_EmployeeAgent_step:
  "quantities_ok s \<Longrightarrow> quantities_ok (EmployeeAgent_step u s)"
  by (rule EmployeeAgent_step_rule) (simp_all add: quantities_ok_handle_restock_message)

lemma quantities_ok_apply_purchase_message:
  assumes "quantities_ok s"
  shows "quantities_ok (apply_purchase_message m s)"
proof (cases m s rule: apply_purchase_message_cases)
  case rejected
  then show ?thesis using assms by simp
next
  case (sold isbn c row)
  have "0 \<le> quantity (row\<lparr>quantity := quantity row - 1\<rparr>)"
    using sold(5) by simp
  with assms show ?thesis
    by (rule quantities_ok_update) (rule apply_purchase_message_in_stock(1) [OF sold])
qed

lemma quantities_ok_process_purchase_events:
  "quantities_ok s \<Longrightarrow> quantities_ok (process_purchase_events s)"
  by (rule process_purchase_events_rule) (simp_all add: quantities_ok_apply_purchase_message)

lemma quantities_ok_activate:
  assumes "quantities_ok s"
  shows "quantities_ok (activate E key s)"
proof (rule activate_rule)
  show "quantities_ok s" by fact
  show "quantities_ok (EmployeeAgent_step u s)" for u
    using assms by (rule quantities_ok_EmployeeAgent_step)
  show "quantities_ok ((snd (CustomerAgent_step E u b s))\<lparr>schedule := sch\<rparr>)" for u b sch
    using assms by (simp add: quantities_ok_def)
qed

lemma quantities_ok_schedule_step:
  "quantities_ok s \<Longrightarrow> quantities_ok (schedule_step E s)"
  by (rule schedule_step_rule) (simp_all add: quantities_ok_activate)

lemma quantities_ok_step:
  assumes "quantities_ok s" and "step E s = Inr s'"
  shows "quantities_ok s'"
proof -
  let ?s2 = "process_purchase_events (schedule_step E (s\<lparr>step_count := step_count s + 1\<rparr>))"
  have "quantities_ok ?s2"
    using assms(1) by (simp add: quantities_ok_process_purchase_events quantities_ok_schedule_step)
  moreover have "inventory_snapshots s' = inventory_snapshots ?s2"
    using assms(2) unfolding step_def by (rule sync_reasoner_if_needed_fields(1))
  ultimately show ?thesis by (simp add: quantities_ok_def)
qed

lemma generate_report_Inr:
  "generate_report E s = Inr (r, s') \<Longrightarrow> sync_reasoner_if_needed E True s = Inr s'"
  by (auto simp: generate_report_def split: sum.splits)

lemma quantities_ok_generate_report:
  assumes "quantities_ok s" and "generate_report E s = Inr (r, s')"
  shows "quantities_ok s'"
proof -
  have "inventory_snapshots s' = inventory_snapshots s"
    by (rule sync_reasoner_if_needed_fields(1) [OF generate_report_Inr [OF assms(2)]])
  with assms(1) show ?thesis by (simp add: quantities_ok_def)
qed

lemma quantities_ok_run:
  "quantities_ok s \<Longrightarrow> run E ops s = Inr s' \<Longrightarrow> quantities_ok s'"
proof (induction ops arbitrary: s)
  case Nil
  then show ?case by simp
next
  case (Cons x ops)
  show ?case
  proof (cases x)
    case Tick
    with Cons.prems obtain s1 where "step E s = Inr s1" "run E ops s1 = Inr s'"
      by (auto split: sum.splits)
    with Cons.prems(1) show ?thesis
      by (blast intro: Cons.IH quantities_ok_step)
  next
    case AskReport
    with Cons.prems obtain r s1 where "generate_report E s = Inr (r, s1)" "run E ops s1 = Inr s'"
      by (auto split: sum.splits)
    with Cons.prems(1) show ?thesis
      by (blast intro: Cons.IH quantities_ok_generate_report)
  next
    case (Configure i y)
    with Cons.prems have "run E ops (configure E i y s) = Inr s'" by simp
    moreover have "quantities_ok (configure E i y s)"
      using Cons.prems(1) by (simp add: quantities_ok_def)
    ultimately show ?thesis by (blast intro: Cons.IH)
  qed
qed


end
